theory Spec2Isabelle
  imports Main "HOL-Library.Log_Nat"
begin

section \<open>Data model\<close>

text \<open>
  The timer of \<^verbatim>\<open>src/contexts/TimerContext.tsx\<close> and its persistence layer
  \<^verbatim>\<open>src/lib/timerPersistence.ts\<close>. A TypeScript \<^verbatim>\<open>number\<close> that holds a count of
  seconds, an array index or a millisecond timestamp is an \<^typ>\<open>int\<close>; a value of type
  \<^verbatim>\<open>T | null\<close> is a \<^typ>\<open>'a option\<close>. The arithmetic of \<^typ>\<open>int\<close> is that of
  \<^verbatim>\<open>number\<close> as long as the values are safe integers (below \<open>2^53\<close> in magnitude); the
  rounding of \<^verbatim>\<open>number\<close> beyond is followed for the reconciliation in a section of its
  own.
\<close>

datatype TimerStatus = Idle | Running | Paused | Completed

text \<open>
  \<^verbatim>\<open>Phase\<close> and \<^verbatim>\<open>Preset\<close> of \<^verbatim>\<open>lib/presets\<close>. The fields \<^verbatim>\<open>id\<close>, \<^verbatim>\<open>name\<close> and
  \<^verbatim>\<open>order\<close> carry a prefix, since one theory cannot hold the same field name in two
  unrelated records; \<^verbatim>\<open>createdAt\<close> and the legacy migration fields are never read by the
  timer and are left out.
\<close>

record Phase =
  phaseId :: string
  phaseName :: string
  durationMinutes :: int
  startTime :: "string option"
  phaseOrder :: int

record Preset =
  presetId :: string
  presetName :: string
  phases :: "Phase list"
  loopPhases :: bool
  color :: "string option"
  presetOrder :: int

record TimerState =
  totalSeconds :: int
  isRunning :: bool
  status :: TimerStatus
  currentPhaseIndex :: int

text \<open>
  \<^verbatim>\<open>PersistedTimerState\<close> has the four fields of \<^verbatim>\<open>TimerState\<close> under the same names,
  plus \<^verbatim>\<open>activePresetId\<close> and \<^verbatim>\<open>savedAt\<close> (Unix time in milliseconds); it is the
  record extension, so that the selectors keep the names of the source.
\<close>

record PersistedTimerState = TimerState +
  activePresetId :: "string option"
  savedAt :: int

text \<open>Reading a property of \<^verbatim>\<open>undefined\<close> throws a \<^verbatim>\<open>TypeError\<close>.\<close>

datatype error = TypeError

text \<open>
  \<^verbatim>\<open>xs[i]\<close> on a JavaScript array: the element when \<open>0 \<le> i < xs.length\<close>, and
  \<^verbatim>\<open>undefined\<close> (here \<open>None\<close>) otherwise.
\<close>

definition at_index :: "'a list \<Rightarrow> int \<Rightarrow> 'a option" where
  "at_index xs i = (if 0 \<le> i \<and> i < int (length xs) then Some (xs ! nat i) else None)"

section \<open>Reconciliation (timerPersistence.ts)\<close>

text \<open>
  \<^verbatim>\<open>calculateRestoredState\<close>; the value of \<^verbatim>\<open>Date.now()\<close> that the function reads is
  the parameter \<open>now\<close>. \<^verbatim>\<open>Math.floor(x / 1000)\<close> on an integer \<open>x\<close> is \<open>x div 1000\<close>,
  which rounds towards minus infinity on \<^typ>\<open>int\<close>.
\<close>

definition calculateRestoredState :: "int \<Rightarrow> PersistedTimerState \<Rightarrow> PersistedTimerState" where
  "calculateRestoredState now savedState =
     (if \<not> isRunning savedState \<or> status savedState \<noteq> Running then savedState
      else
        let elapsedSeconds = (now - savedAt savedState) div 1000;
            adjustedSeconds = max 0 (totalSeconds savedState - elapsedSeconds)
        in if adjustedSeconds = 0
           then savedState\<lparr>totalSeconds := 0, isRunning := False, status := Paused, savedAt := now\<rparr>
           else savedState\<lparr>totalSeconds := adjustedSeconds, savedAt := now\<rparr>)"

text \<open>\<^verbatim>\<open>createPersistedState\<close>, again with \<^verbatim>\<open>Date.now()\<close> as \<open>now\<close>.\<close>

definition createPersistedState ::
  "int \<Rightarrow> int \<Rightarrow> int \<Rightarrow> TimerStatus \<Rightarrow> string option \<Rightarrow> bool \<Rightarrow> PersistedTimerState" where
  "createPersistedState now totalSeconds' currentPhaseIndex' status' activePresetId' isRunning' =
     \<lparr>totalSeconds = totalSeconds', isRunning = isRunning', status = status',
      currentPhaseIndex = currentPhaseIndex', activePresetId = activePresetId', savedAt = now\<rparr>"

section \<open>Reconciliation in double precision\<close>

text \<open>
  A \<^verbatim>\<open>number\<close> is an IEEE 754 double: 53 significant bits, and every operation returns
  the double nearest to the exact result, a tie going to the even significand. On
  integers below \<open>2^53\<close> in magnitude this is the arithmetic of \<^typ>\<open>int\<close> used above; the
  definitions below follow the rounding beyond. Subnormal results and overflow to
  infinity (magnitudes below \<open>2^-1022\<close> or from \<open>2^1024\<close>) are not modelled: no operation
  of \<^verbatim>\<open>calculateRestoredState\<close> on integer-valued doubles reaches them.
\<close>

text \<open>\<^verbatim>\<open>Number.MAX_SAFE_INTEGER\<close>, \<open>2^53 - 1\<close>.\<close>

definition maxSafeInteger :: int where
  "maxSafeInteger = 9007199254740991"

text \<open>The integer nearest to \<open>n / d\<close> for \<open>d > 0\<close>, a tie going to the even one.\<close>

definition roundHalfEven :: "int \<Rightarrow> int \<Rightarrow> int" where
  "roundHalfEven n d =
     (let q = n div d; r = n mod d
      in if 2 * r < d then q else if d < 2 * r then q + 1 else if even q then q else q + 1)"

text \<open>
  The binary exponent of \<open>n / d\<close> for positive \<open>n\<close> and \<open>d\<close>: the \<open>e\<close> with
  \<open>2^e \<le> n / d < 2^(e + 1)\<close>. The difference of the bit lengths is \<open>e\<close> or \<open>e + 1\<close>.
\<close>

definition binaryExponent :: "int \<Rightarrow> int \<Rightarrow> int" where
  "binaryExponent n d =
     (let e = bitlen n - bitlen d
      in if (if 0 \<le> e then d * 2 ^ nat e \<le> n else d \<le> n * 2 ^ nat (- e)) then e else e - 1)"

text \<open>
  The double nearest to \<open>n / d\<close> (\<open>d > 0\<close>), as a pair \<open>(M, k)\<close> that stands for
  \<open>M / 2^k\<close>: the quotient is scaled by \<open>2^k\<close> so that it lies between \<open>2^52\<close> and
  \<open>2^53\<close>, and rounded there.
\<close>

definition nearestDouble :: "int \<Rightarrow> int \<Rightarrow> int \<times> int" where
  "nearestDouble n d =
     (if n = 0 then (0, 0)
      else
        let k = 52 - binaryExponent \<bar>n\<bar> d;
            m = (if 0 \<le> k then roundHalfEven (\<bar>n\<bar> * 2 ^ nat k) d
                 else roundHalfEven \<bar>n\<bar> (d * 2 ^ nat (- k)))
        in (sgn n * m, k))"

text \<open>\<^verbatim>\<open>Math.floor\<close> of the double \<open>M / 2^k\<close>.\<close>

definition doubleFloor :: "int \<times> int \<Rightarrow> int" where
  "doubleFloor x = (case x of (M, k) \<Rightarrow> if 0 \<le> k then M div 2 ^ nat k else M * 2 ^ nat (- k))"

text \<open>
  \<^verbatim>\<open>a - b\<close> on integer-valued doubles: the double nearest to the exact difference, which
  is an integer again, so that its floor is its value.
\<close>

definition doubleMinus :: "int \<Rightarrow> int \<Rightarrow> int" where
  "doubleMinus a b = doubleFloor (nearestDouble (a - b) 1)"

text \<open>
  \<^verbatim>\<open>calculateRestoredState\<close> with each operation in double precision: the two
  subtractions, and \<^verbatim>\<open>Math.floor(x / 1000)\<close> as the floor of the rounded quotient.
  \<^verbatim>\<open>Math.max\<close> and the comparisons are exact.
\<close>

definition calculateRestoredStateDouble ::
  "int \<Rightarrow> PersistedTimerState \<Rightarrow> PersistedTimerState" where
  "calculateRestoredStateDouble now savedState =
     (if \<not> isRunning savedState \<or> status savedState \<noteq> Running then savedState
      else
        let elapsedSeconds = doubleFloor (nearestDouble (doubleMinus now (savedAt savedState)) 1000);
            adjustedSeconds = max 0 (doubleMinus (totalSeconds savedState) elapsedSeconds)
        in if adjustedSeconds = 0
           then savedState\<lparr>totalSeconds := 0, isRunning := False, status := Paused, savedAt := now\<rparr>
           else savedState\<lparr>totalSeconds := adjustedSeconds, savedAt := now\<rparr>)"

section \<open>Countdown engine (TimerContext.tsx)\<close>

text \<open>The state of \<^verbatim>\<open>getInitialTimerState\<close> when nothing is stored.\<close>

definition initialTimerState :: TimerState where
  "initialTimerState =
     \<lparr>totalSeconds = 0, isRunning = False, status = Idle, currentPhaseIndex = 0\<rparr>"

text \<open>
  The callback of \<^verbatim>\<open>setInterval\<close>: the updater it passes to \<^verbatim>\<open>setTimerState\<close>, as a
  function of the active preset and the previous state. \<^verbatim>\<open>activePreset.phases\<close> is an
  array by its type, and an array is truthy even when empty, so the test
  \<^verbatim>\<open>activePreset && activePreset.phases\<close> is the test that a preset is active.
  \<^verbatim>\<open>nextPhase.durationMinutes\<close> and \<^verbatim>\<open>firstPhase.durationMinutes\<close> throw when the array
  read gave \<^verbatim>\<open>undefined\<close>.
\<close>

definition tick :: "Preset option \<Rightarrow> TimerState \<Rightarrow> error + TimerState" where
  "tick activePreset prev =
     (if totalSeconds prev \<le> 1 then
        (case activePreset of
           Some p \<Rightarrow>
             (let nextPhaseIndex = currentPhaseIndex prev + 1 in
              if nextPhaseIndex < int (length (phases p)) then
                (case at_index (phases p) nextPhaseIndex of
                   None \<Rightarrow> Inl TypeError
                 | Some nextPhase \<Rightarrow>
                     Inr \<lparr>totalSeconds = durationMinutes nextPhase * 60, isRunning = True,
                          status = Running, currentPhaseIndex = nextPhaseIndex\<rparr>)
              else if loopPhases p then
                (case at_index (phases p) 0 of
                   None \<Rightarrow> Inl TypeError
                 | Some firstPhase \<Rightarrow>
                     Inr \<lparr>totalSeconds = durationMinutes firstPhase * 60, isRunning = True,
                          status = Running, currentPhaseIndex = 0\<rparr>)
              else Inr (prev\<lparr>totalSeconds := 0, isRunning := False, status := Completed\<rparr>))
         | None \<Rightarrow> Inr (prev\<lparr>totalSeconds := 0, isRunning := False, status := Completed\<rparr>))
      else Inr (prev\<lparr>totalSeconds := totalSeconds prev - 1\<rparr>))"

text \<open>
  The controls. Each one is the guard of the callback followed by the state update;
  a guard that returns early leaves the state as it is. After the guard
  \<^verbatim>\<open>phases.length === 0\<close> the reads \<^verbatim>\<open>phases[0]\<close> and \<^verbatim>\<open>phases[phases.length - 1]\<close>
  are in range.
\<close>

definition start :: "Preset option \<Rightarrow> TimerState \<Rightarrow> TimerState" where
  "start activePreset prev =
     (case activePreset of
        None \<Rightarrow> prev
      | Some p \<Rightarrow>
          if length (phases p) = 0 then prev
          else if status prev = Completed \<or> status prev = Idle then
            \<lparr>totalSeconds = durationMinutes (phases p ! 0) * 60, isRunning = True,
             status = Running, currentPhaseIndex = 0\<rparr>
          else if totalSeconds prev = 0 then
            (case at_index (phases p) (currentPhaseIndex prev) of
               Some currentPhaseData \<Rightarrow>
                 prev\<lparr>totalSeconds := durationMinutes currentPhaseData * 60, isRunning := True,
                      status := Running\<rparr>
             | None \<Rightarrow> prev\<lparr>isRunning := True, status := Running\<rparr>)
          else prev\<lparr>isRunning := True, status := Running\<rparr>)"

definition pause :: "TimerState \<Rightarrow> TimerState" where
  "pause prev = prev\<lparr>isRunning := False, status := Paused\<rparr>"

definition reset :: "Preset option \<Rightarrow> TimerState \<Rightarrow> TimerState" where
  "reset activePreset prev =
     (case activePreset of
        None \<Rightarrow> prev
      | Some p \<Rightarrow>
          if length (phases p) = 0 then prev
          else \<lparr>totalSeconds = durationMinutes (phases p ! 0) * 60, isRunning = False,
                status = Idle, currentPhaseIndex = 0\<rparr>)"

definition skipToNextPhase :: "Preset option \<Rightarrow> TimerState \<Rightarrow> error + TimerState" where
  "skipToNextPhase activePreset prev =
     (case activePreset of
        None \<Rightarrow> Inr prev
      | Some p \<Rightarrow>
          if length (phases p) = 0 then Inr prev
          else
            let nextIndex = currentPhaseIndex prev + 1 in
            if nextIndex < int (length (phases p)) then
              (case at_index (phases p) nextIndex of
                 None \<Rightarrow> Inl TypeError
               | Some nextPhase \<Rightarrow>
                   Inr \<lparr>totalSeconds = durationMinutes nextPhase * 60, isRunning = False,
                        status = Paused, currentPhaseIndex = nextIndex\<rparr>)
            else if loopPhases p then
              Inr \<lparr>totalSeconds = durationMinutes (phases p ! 0) * 60, isRunning = False,
                   status = Paused, currentPhaseIndex = 0\<rparr>
            else Inr prev)"

definition skipToPreviousPhase :: "Preset option \<Rightarrow> TimerState \<Rightarrow> error + TimerState" where
  "skipToPreviousPhase activePreset prev =
     (case activePreset of
        None \<Rightarrow> Inr prev
      | Some p \<Rightarrow>
          if length (phases p) = 0 then Inr prev
          else
            let prevIndex = currentPhaseIndex prev - 1 in
            if prevIndex \<ge> 0 then
              (case at_index (phases p) prevIndex of
                 None \<Rightarrow> Inl TypeError
               | Some prevPhase \<Rightarrow>
                   Inr \<lparr>totalSeconds = durationMinutes prevPhase * 60, isRunning = False,
                        status = Paused, currentPhaseIndex = prevIndex\<rparr>)
            else if loopPhases p then
              Inr \<lparr>totalSeconds = durationMinutes (phases p ! (length (phases p) - 1)) * 60,
                   isRunning = False, status = Paused,
                   currentPhaseIndex = int (length (phases p)) - 1\<rparr>
            else Inr prev)"

definition goToPhase :: "Preset option \<Rightarrow> int \<Rightarrow> TimerState \<Rightarrow> TimerState" where
  "goToPhase activePreset index prev =
     (case activePreset of
        None \<Rightarrow> prev
      | Some p \<Rightarrow>
          if index < 0 \<or> index \<ge> int (length (phases p)) then prev
          else \<lparr>totalSeconds = durationMinutes (phases p ! nat index) * 60, isRunning = False,
                status = Paused, currentPhaseIndex = index\<rparr>)"

text \<open>One engine step: a control call or a tick.\<close>

datatype action =
  Start | Pause | Reset | SkipToNextPhase | SkipToPreviousPhase | GoToPhase int | Tick

fun perform :: "Preset option \<Rightarrow> action \<Rightarrow> TimerState \<Rightarrow> error + TimerState" where
  "perform ap Start s = Inr (start ap s)"
| "perform ap Pause s = Inr (pause s)"
| "perform ap Reset s = Inr (reset ap s)"
| "perform ap SkipToNextPhase s = skipToNextPhase ap s"
| "perform ap SkipToPreviousPhase s = skipToPreviousPhase ap s"
| "perform ap (GoToPhase i) s = Inr (goToPhase ap i s)"
| "perform ap Tick s = tick ap s"

text \<open>\<open>n\<close> ticks in a row; a tick in which the updater throws ends the run.\<close>

fun ticks :: "nat \<Rightarrow> Preset option \<Rightarrow> TimerState \<Rightarrow> error + TimerState" where
  "ticks 0 ap s = Inr s"
| "ticks (Suc n) ap s = (case tick ap s of Inl e \<Rightarrow> Inl e | Inr s' \<Rightarrow> ticks n ap s')"

section \<open>Provider state and persistence effects (TimerContext.tsx)\<close>

text \<open>
  What \<^verbatim>\<open>TimerProvider\<close> holds and the one slot of \<^verbatim>\<open>localStorage\<close> it reads and
  writes (\<^verbatim>\<open>saveTimerStateLocal\<close>, \<^verbatim>\<open>loadTimerStateLocal\<close>; a snapshot survives
  \<^verbatim>\<open>JSON.stringify\<close> and \<^verbatim>\<open>JSON.parse\<close> unchanged, and a write that the browser refuses is
  swallowed by the source and is not a write).
\<close>

record AppState =
  timerState :: TimerState
  hasRestoredState :: bool
  restoredPresetIdRef :: "string option"
  localStorage :: "PersistedTimerState option"

definition getInitialTimerState ::
  "int \<Rightarrow> PersistedTimerState option \<Rightarrow> TimerState \<times> bool \<times> string option" where
  "getInitialTimerState now stored =
     (case stored of
        Some savedState \<Rightarrow>
          let restoredState = calculateRestoredState now savedState in
          (\<lparr>totalSeconds = totalSeconds restoredState, isRunning = isRunning restoredState,
            status = status restoredState, currentPhaseIndex = currentPhaseIndex restoredState\<rparr>,
           True, activePresetId restoredState)
      | None \<Rightarrow>
          (\<lparr>totalSeconds = 0, isRunning = False, status = Idle, currentPhaseIndex = 0\<rparr>,
           False, None))"

text \<open>Mounting the provider: the \<^verbatim>\<open>useState\<close> and \<^verbatim>\<open>useRef\<close> initialisers.\<close>

definition mountProvider :: "int \<Rightarrow> PersistedTimerState option \<Rightarrow> AppState" where
  "mountProvider now stored =
     (case getInitialTimerState now stored of
        (st, restored, savedPresetId) \<Rightarrow>
          \<lparr>timerState = st, hasRestoredState = restored, restoredPresetIdRef = savedPresetId,
           localStorage = stored\<rparr>)"

text \<open>
  \<^verbatim>\<open>loadFirebaseState\<close>: \<open>user\<close> is the uid of the signed-in user if any,
  \<open>syncTimerStateRef\<close> the value of the ref, \<open>firebaseState\<close> what
  \<^verbatim>\<open>loadTimerStateFirebase\<close> resolved to, \<open>now\<close> the clock read by
  \<^verbatim>\<open>calculateRestoredState\<close>.
\<close>

definition loadFirebaseState ::
  "string option \<Rightarrow> bool \<Rightarrow> PersistedTimerState option \<Rightarrow> int \<Rightarrow> AppState \<Rightarrow> AppState" where
  "loadFirebaseState user syncTimerStateRef firebaseState now app =
     (if user = None \<or> \<not> syncTimerStateRef then app
      else
        (case firebaseState of
           None \<Rightarrow> app
         | Some fb \<Rightarrow>
             if (case localStorage app of
                   None \<Rightarrow> True
                 | Some localState \<Rightarrow> savedAt fb > savedAt localState)
             then
               let restoredState = calculateRestoredState now fb in
               app\<lparr>timerState :=
                     \<lparr>totalSeconds = totalSeconds restoredState,
                      isRunning = isRunning restoredState,
                      status = status restoredState,
                      currentPhaseIndex = currentPhaseIndex restoredState\<rparr>,
                   hasRestoredState := True,
                   restoredPresetIdRef := activePresetId restoredState,
                   localStorage := Some restoredState\<rparr>
             else app))"

text \<open>
  The body of the effect that initialises the timer when the active preset changes
  (dependencies \<^verbatim>\<open>[activePreset, activePresetId, hasRestoredState]\<close>).
\<close>

definition presetChangeEffect :: "Preset option \<Rightarrow> string option \<Rightarrow> AppState \<Rightarrow> AppState" where
  "presetChangeEffect activePreset activePresetId' app =
     (if hasRestoredState app \<and> restoredPresetIdRef app = activePresetId'
      then app\<lparr>hasRestoredState := False\<rparr>
      else
        (case activePreset of
           Some p \<Rightarrow>
             if length (phases p) > 0 then
               app\<lparr>timerState :=
                     \<lparr>totalSeconds = durationMinutes (phases p ! 0) * 60, isRunning = False,
                      status = Idle, currentPhaseIndex = 0\<rparr>\<rparr>
             else
               app\<lparr>timerState :=
                     \<lparr>totalSeconds = 0, isRunning = False, status = Idle,
                      currentPhaseIndex = 0\<rparr>\<rparr>
         | None \<Rightarrow>
             app\<lparr>timerState :=
                   \<lparr>totalSeconds = 0, isRunning = False, status = Idle,
                    currentPhaseIndex = 0\<rparr>\<rparr>))"

text \<open>
  React runs an effect after a commit when it is the first commit or when one of its
  dependencies differs from the value it had at the previous commit; a state update made
  by the effect causes another render and commit. \<open>presetChangeCommits\<close> follows the
  effect above through these commits until the dependencies are stable: \<open>prevDeps\<close> holds the
  dependencies of the previous commit (\<open>None\<close> before the first).
\<close>

type_synonym presetChangeDeps = "Preset option \<times> string option \<times> bool"

function presetChangeCommits ::
  "presetChangeDeps option \<Rightarrow> Preset option \<Rightarrow> string option \<Rightarrow> AppState \<Rightarrow> AppState" where
  "presetChangeCommits prevDeps activePreset activePresetId' app =
     (if prevDeps = Some (activePreset, activePresetId', hasRestoredState app) then app
      else presetChangeCommits (Some (activePreset, activePresetId', hasRestoredState app))
             activePreset activePresetId' (presetChangeEffect activePreset activePresetId' app))"
  by pat_completeness auto
termination
  by (relation "measure (\<lambda>(prevDeps, ap, aid, app).
        if prevDeps = Some (ap, aid, hasRestoredState app) then 0
        else if hasRestoredState app then 2 else 1)")
     (auto simp: presetChangeEffect_def split: option.splits if_splits)

declare presetChangeCommits.simps [simp del]

text \<open>
  The effect that saves the timer on every change of \<^verbatim>\<open>timerState\<close>, to
  \<^verbatim>\<open>localStorage\<close> always and to the user's Firebase document when sync is on; the second
  component is that document. \<^verbatim>\<open>!activePresetId\<close> holds for \<^verbatim>\<open>null\<close> and for the empty
  string.
\<close>

definition persistEffect ::
  "int \<Rightarrow> string option \<Rightarrow> string option \<Rightarrow> bool \<Rightarrow>
   AppState \<times> PersistedTimerState option \<Rightarrow> AppState \<times> PersistedTimerState option" where
  "persistEffect now activePresetId' user syncTimerStateRef w =
     (case w of (app, remote) \<Rightarrow>
        if status (timerState app) = Idle \<and> totalSeconds (timerState app) = 0
           \<and> (activePresetId' = None \<or> activePresetId' = Some [])
        then (app, remote)
        else
          let persistedState =
                createPersistedState now (totalSeconds (timerState app))
                  (currentPhaseIndex (timerState app)) (status (timerState app))
                  activePresetId' (isRunning (timerState app))
          in (app\<lparr>localStorage := Some persistedState\<rparr>,
              if syncTimerStateRef \<and> user \<noteq> None then Some persistedState else remote))"

definition handleBeforeUnload :: "int \<Rightarrow> string option \<Rightarrow> AppState \<Rightarrow> AppState" where
  "handleBeforeUnload now activePresetId' app =
     (let persistedState =
            createPersistedState now (totalSeconds (timerState app))
              (currentPhaseIndex (timerState app)) (status (timerState app))
              activePresetId' (isRunning (timerState app))
      in app\<lparr>localStorage := Some persistedState\<rparr>)"

section \<open>The sync flag and the loader (TimerContext.tsx)\<close>

text \<open>
  The hooks that decide whether \<^verbatim>\<open>loadFirebaseState\<close> reads the remote snapshot: the
  user of \<^verbatim>\<open>useAuth\<close>, the state \<^verbatim>\<open>syncTimerState\<close> and the ref
  \<^verbatim>\<open>syncTimerStateRef\<close>. The preset states that the same effects set are not read by the
  loader and are left out.
\<close>

record Provider =
  appState :: AppState
  currentUser :: "string option"
  syncTimerState :: bool
  syncTimerStateRef :: bool


text \<open>The effect with dependency \<^verbatim>\<open>[syncTimerState]\<close>: it copies the state into the ref.\<close>

definition syncRefEffect :: "Provider \<Rightarrow> Provider" where
  "syncRefEffect p = p\<lparr>syncTimerStateRef := syncTimerState p\<rparr>"

text \<open>
  The first effect with dependency \<^verbatim>\<open>[user]\<close>: without a user it resets the sync state;
  with a user it only subscribes, and the settings reach the provider later, through the
  callback (\<open>settingsSnapshot\<close> below). A state set by an effect is seen by the next
  render; the ref keeps its value until \<open>syncRefEffect\<close> runs again.
\<close>

definition subscribeEffect :: "Provider \<Rightarrow> Provider" where
  "subscribeEffect p = (if currentUser p = None then p\<lparr>syncTimerState := False\<rparr> else p)"

text \<open>
  The second effect with dependency \<^verbatim>\<open>[user]\<close>: it calls \<^verbatim>\<open>loadFirebaseState\<close>, which
  tests the user and the ref before its first \<^verbatim>\<open>await\<close>.
\<close>

definition loaderEffect :: "PersistedTimerState option \<Rightarrow> int \<Rightarrow> Provider \<Rightarrow> Provider" where
  "loaderEffect firebaseState now p =
     p\<lparr>appState := loadFirebaseState (currentUser p) (syncTimerStateRef p) firebaseState now
                     (appState p)\<rparr>"


text \<open>
  A change of the user (sign-in or sign-out): the two \<^verbatim>\<open>[user]\<close> effects run, then the
  ref effect if the sync state changed. Nothing runs when the user is the same.
\<close>

definition authChange ::
  "string option \<Rightarrow> PersistedTimerState option \<Rightarrow> int \<Rightarrow> Provider \<Rightarrow> Provider" where
  "authChange u firebaseState now p =
     (if u = currentUser p then p
      else
        let p' = loaderEffect firebaseState now (subscribeEffect (p\<lparr>currentUser := u\<rparr>))
        in if syncTimerState p' = syncTimerState p then p' else syncRefEffect p')"


section \<open>Reachable configurations\<close>

text \<open>
  A configuration is the provider state together with the user's Firebase document.
  It starts in a fresh browser (nothing stored, the initial timer state) and changes by
  a control call or a tick under any active preset, by the preset-change effect, by the
  two saving paths, by a page reload (the provider is mounted again from
  \<^verbatim>\<open>localStorage\<close>) and by \<^verbatim>\<open>loadFirebaseState\<close>. The Firebase document may also have
  been written by the same program running on another device, which the last rule
  covers. Effects and ticks may come in any order and under any preset, which is more
  than the scheduler of React allows and so covers every run of the provider. A step in
  which the source throws has no successor.
\<close>

inductive reachable :: "AppState \<times> PersistedTimerState option \<Rightarrow> bool" where
  fresh: "reachable (\<lparr>timerState = initialTimerState, hasRestoredState = False,
                       restoredPresetIdRef = None, localStorage = None\<rparr>, None)"
| step: "reachable (app, remote) \<Longrightarrow> perform ap a (timerState app) = Inr s' \<Longrightarrow>
         reachable (app\<lparr>timerState := s'\<rparr>, remote)"
| presetChange: "reachable (app, remote) \<Longrightarrow> reachable (presetChangeEffect ap aid app, remote)"
| persist: "reachable w \<Longrightarrow> reachable (persistEffect now aid user sync w)"
| unload: "reachable (app, remote) \<Longrightarrow> reachable (handleBeforeUnload now aid app, remote)"
| reload: "reachable (app, remote) \<Longrightarrow> reachable (mountProvider now (localStorage app), remote)"
| loadFirebase: "reachable (app, remote) \<Longrightarrow>
         reachable (loadFirebaseState user sync remote now app, remote)"
| otherDevice: "reachable (app, remote) \<Longrightarrow> reachable (app', remote') \<Longrightarrow>
         reachable (app, remote')"

section \<open>The invariant of the timer state\<close>

text \<open>
  The invariant that the specification gives for the timer state, in its words: running
  implies status \<open>Running\<close>, and status \<open>Completed\<close> implies no time left and not
  running. It is stated on any record that has the four fields, so that it also reads
  on a persisted snapshot.
\<close>

definition timerInvariant :: "'a TimerState_scheme \<Rightarrow> bool" where
  "timerInvariant s \<longleftrightarrow>
     (isRunning s \<longrightarrow> status s = Running)
     \<and> (status s = Completed \<longrightarrow> totalSeconds s = 0 \<and> \<not> isRunning s)"

text \<open>The same for a configuration: the timer state and both stored snapshots.\<close>

definition configInvariant :: "AppState \<times> PersistedTimerState option \<Rightarrow> bool" where
  "configInvariant w =
     (case w of (app, remote) \<Rightarrow>
        timerInvariant (timerState app)
        \<and> (case localStorage app of None \<Rightarrow> True | Some l \<Rightarrow> timerInvariant l)
        \<and> (case remote of None \<Rightarrow> True | Some r \<Rightarrow> timerInvariant r))"

section \<open>Example data\<close>

definition workPhase :: Phase where
  "workPhase = \<lparr>phaseId = ''w'', phaseName = ''Work'', durationMinutes = 1,
                startTime = None, phaseOrder = 0\<rparr>"

definition breakPhase :: Phase where
  "breakPhase = \<lparr>phaseId = ''b'', phaseName = ''Break'', durationMinutes = 1,
                 startTime = None, phaseOrder = 1\<rparr>"

definition workBreak :: "bool \<Rightarrow> Preset" where
  "workBreak loop = \<lparr>presetId = ''p1'', presetName = ''Pomodoro'',
                     phases = [workPhase, breakPhase], loopPhases = loop,
                     color = None, presetOrder = 0\<rparr>"

definition emptyPreset :: Preset where
  "emptyPreset = \<lparr>presetId = ''p0'', presetName = ''Empty'', phases = [],
                  loopPhases = True, color = None, presetOrder = 1\<rparr>"

definition runningSnapshot :: "int \<Rightarrow> int \<Rightarrow> PersistedTimerState" where
  "runningSnapshot secs t = \<lparr>totalSeconds = secs, isRunning = True, status = Running,
     currentPhaseIndex = 1, activePresetId = Some ''p1'', savedAt = t\<rparr>"

definition pausedSnapshot :: "int \<Rightarrow> int \<Rightarrow> PersistedTimerState" where
  "pausedSnapshot secs t = \<lparr>totalSeconds = secs, isRunning = False, status = Paused,
     currentPhaseIndex = 1, activePresetId = Some ''p1'', savedAt = t\<rparr>"

text \<open>
  A provider on which \<^verbatim>\<open>loadFirebaseState\<close> has just adopted a running snapshot of
  preset \<open>p1\<close>, 45 seconds left when saved at time 1000, read at time 5000.
\<close>

definition adoptedApp :: AppState where
  "adoptedApp =
     loadFirebaseState (Some ''u1'') True (Some (runningSnapshot 45 1000)) 5000
       (mountProvider 5000 None)"

section \<open>Reconciliation: properties\<close>

text \<open>
  C3. A snapshot that is not running, or whose status is not \<open>Running\<close>, is returned
  unchanged by \<open>calculateRestoredState\<close> whatever the time \<open>now\<close> is; \<open>savedAt\<close> and
  every other field keep their values.
\<close>

theorem calculateRestoredState_not_running_identity:
  "\<not> isRunning s \<or> status s \<noteq> Running \<Longrightarrow> calculateRestoredState now s = s"
  by (simp add: calculateRestoredState_def)

theorem calculateRestoredState_not_running_identity_witness:
  "isRunning (pausedSnapshot 300 1000) = False
   \<and> calculateRestoredState 999000 (pausedSnapshot 300 1000) = pausedSnapshot 300 1000"
  using calculateRestoredState_not_running_identity [of "pausedSnapshot 300 1000" 999000]
  by (simp add: pausedSnapshot_def)

text \<open>
  C2. For a snapshot with \<open>isRunning\<close> and status \<open>Running\<close>, reconciliation at time
  \<open>now\<close> computes \<open>elapsed = floor ((now - savedAt) / 1000)\<close> and
  \<open>adjusted = max 0 (totalSeconds - elapsed)\<close>. \<open>adjusted\<close> is positive or zero. When it
  is positive the result is the snapshot with \<open>totalSeconds = adjusted\<close> and
  \<open>savedAt = now\<close>; when it is zero the result is the snapshot with \<open>totalSeconds = 0\<close>,
  \<open>isRunning = False\<close>, status \<open>Paused\<close> (not \<open>Completed\<close>) and \<open>savedAt = now\<close>. Every
  other field is the snapshot's.
\<close>

theorem calculateRestoredState_running:
  assumes "isRunning s" and "status s = Running"
  shows "let elapsed = (now - savedAt s) div 1000;
             adjusted = max 0 (totalSeconds s - elapsed)
         in (0 < adjusted \<or> adjusted = 0)
          \<and> calculateRestoredState now s =
              (if 0 < adjusted then s\<lparr>totalSeconds := adjusted, savedAt := now\<rparr>
               else s\<lparr>totalSeconds := 0, isRunning := False, status := Paused, savedAt := now\<rparr>)"
proof -
  define adjusted where "adjusted = max 0 (totalSeconds s - (now - savedAt s) div 1000)"
  have nonneg: "0 \<le> adjusted" by (simp add: adjusted_def)
  have unfolded: "calculateRestoredState now s =
      (if adjusted = 0
       then s\<lparr>totalSeconds := 0, isRunning := False, status := Paused, savedAt := now\<rparr>
       else s\<lparr>totalSeconds := adjusted, savedAt := now\<rparr>)"
    using assms by (simp add: calculateRestoredState_def adjusted_def Let_def)
  show ?thesis
  proof (cases "adjusted = 0")
    case True
    with unfolded show ?thesis by (simp add: Let_def adjusted_def [symmetric])
  next
    case False
    with nonneg have "0 < adjusted" by simp
    with unfolded show ?thesis by (simp add: Let_def adjusted_def [symmetric])
  qed
qed

theorem calculateRestoredState_running_witness:
  "calculateRestoredState 41000 (runningSnapshot 100 1000) = runningSnapshot 60 41000
   \<and> calculateRestoredState 46000 (runningSnapshot 30 1000) = pausedSnapshot 0 46000"
proof -
  have run: "isRunning (runningSnapshot n t)" "status (runningSnapshot n t) = Running" for n t
    by (simp_all add: runningSnapshot_def)
  from calculateRestoredState_running [where s = "runningSnapshot 100 1000" and now = 41000, OF run]
  have within: "calculateRestoredState 41000 (runningSnapshot 100 1000) = runningSnapshot 60 41000"
    by (simp add: runningSnapshot_def)
  from calculateRestoredState_running [where s = "runningSnapshot 30 1000" and now = 46000, OF run]
  have expired: "calculateRestoredState 46000 (runningSnapshot 30 1000) = pausedSnapshot 0 46000"
    by (simp add: runningSnapshot_def pausedSnapshot_def)
  from within expired show ?thesis by simp
qed

text \<open>
  Clock skew in exact arithmetic: for a snapshot with \<open>isRunning\<close>, status \<open>Running\<close>,
  a remaining time that is not negative and \<open>savedAt\<close> strictly later than \<open>now\<close>, the
  elapsed time computed is at most \<open>-1\<close> and is not clamped, so the restored
  \<open>totalSeconds\<close> is strictly greater than the saved one; the result is still running
  with status \<open>Running\<close>, and its \<open>savedAt\<close> is \<open>now\<close>.
\<close>

lemma calculateRestoredState_clock_skew_int:
  assumes run: "isRunning s" "status s = Running"
    and skew: "now < savedAt s"
    and nonneg: "0 \<le> totalSeconds s"
  shows "totalSeconds s < totalSeconds (calculateRestoredState now s)
     \<and> totalSeconds (calculateRestoredState now s) = totalSeconds s - (now - savedAt s) div 1000
     \<and> (now - savedAt s) div 1000 \<le> - 1
     \<and> isRunning (calculateRestoredState now s)
     \<and> status (calculateRestoredState now s) = Running
     \<and> savedAt (calculateRestoredState now s) = now"
proof -
  let ?elapsed = "(now - savedAt s) div 1000"
  from skew have "now - savedAt s < 0" by simp
  then have "?elapsed < 0"
    by (simp add: div_neg_pos_less0)
  then have neg: "?elapsed \<le> - 1" by simp
  with nonneg have pos: "0 < totalSeconds s - ?elapsed" by linarith
  then have "max 0 (totalSeconds s - ?elapsed) = totalSeconds s - ?elapsed" by simp
  with pos run have "calculateRestoredState now s
      = s\<lparr>totalSeconds := totalSeconds s - ?elapsed, savedAt := now\<rparr>"
    by (simp add: calculateRestoredState_def Let_def)
  with neg run show ?thesis by simp
qed

text \<open>
  With a negative \<open>totalSeconds\<close> the sum can stay at or below zero, and the snapshot
  is then restored as paused at zero.
\<close>

lemma calculateRestoredState_clock_skew_negative_remaining:
  "calculateRestoredState 1000 (runningSnapshot (- 5) 1001) = pausedSnapshot 0 1000"
  by (simp add: calculateRestoredState_def runningSnapshot_def pausedSnapshot_def)

section \<open>Reconciliation in double precision: properties\<close>

text \<open>Rounding to the nearest integer: bounds that the result keeps.\<close>

lemma roundHalfEven_between:
  assumes "0 < d"
  shows "n div d \<le> roundHalfEven n d" and "roundHalfEven n d \<le> n div d + 1"
  by (simp_all add: roundHalfEven_def Let_def)

lemma roundHalfEven_exact: "0 < d \<Longrightarrow> roundHalfEven (x * d) d = x"
  by (simp add: roundHalfEven_def Let_def)

lemma roundHalfEven_ge:
  assumes "0 < d" and "L * d \<le> n"
  shows "L \<le> roundHalfEven n d"
proof -
  from assms have "(L * d) div d \<le> n div d" by (intro zdiv_mono1) simp_all
  with assms(1) have "L \<le> n div d" by simp
  with roundHalfEven_between(1) [OF assms(1), of n] show ?thesis by linarith
qed

lemma roundHalfEven_le:
  assumes "0 < d" and "n \<le> U * d"
  shows "roundHalfEven n d \<le> U"
proof (cases "n = U * d")
  case True
  with assms(1) show ?thesis by (simp add: roundHalfEven_exact)
next
  case False
  with assms have less: "n < U * d" by simp
  have "n div d < U"
  proof (rule ccontr)
    assume "\<not> n div d < U"
    then have "U \<le> n div d" by simp
    with assms(1) have "U * d \<le> (n div d) * d" by (intro mult_right_mono) simp_all
    also have "\<dots> \<le> (n div d) * d + n mod d"
      using pos_mod_sign [OF assms(1), of n] by linarith
    also have "\<dots> = n" by simp
    finally show False using less by simp
  qed
  with roundHalfEven_between(2) [OF assms(1), of n] show ?thesis by simp
qed

lemma roundHalfEven_below_half:
  assumes "0 < d" and "2 * n < (2 * U - 1) * d"
  shows "roundHalfEven n d \<le> U - 1"
proof -
  define q r where "q = n div d" and "r = n mod d"
  have n: "n = q * d + r" by (simp add: q_def r_def)
  from assms(1) have r: "0 \<le> r" "r < d" by (simp_all add: r_def)
  have "q < U"
  proof (rule ccontr)
    assume "\<not> q < U"
    then have "U \<le> q" by simp
    with assms(1) have "U * d \<le> q * d" by (intro mult_right_mono) simp_all
    with n r have "U * d \<le> n" by linarith
    with assms show False by (simp add: algebra_simps)
  qed
  show ?thesis
  proof (cases "q = U - 1")
    case True
    with n assms(2) have "2 * r < d" by (simp add: algebra_simps)
    then show ?thesis using True by (simp add: roundHalfEven_def Let_def q_def r_def)
  next
    case False
    with \<open>q < U\<close> have "q + 1 \<le> U - 1" by simp
    with roundHalfEven_between(2) [OF assms(1), of n] show ?thesis by (simp add: q_def)
  qed
qed

lemma roundHalfEven_above_half:
  assumes "0 < d" and "(2 * L + 1) * d < 2 * n"
  shows "L + 1 \<le> roundHalfEven n d"
proof -
  define q r where "q = n div d" and "r = n mod d"
  have n: "n = q * d + r" by (simp add: q_def r_def)
  from assms(1) have r: "0 \<le> r" "r < d" by (simp_all add: r_def)
  have "L \<le> q"
  proof (rule ccontr)
    assume "\<not> L \<le> q"
    then have "q + 1 \<le> L" by simp
    with assms(1) have "(q + 1) * d \<le> L * d" by (intro mult_right_mono) simp_all
    with n r have "n < L * d" by (simp only: distrib_right)
    with assms show False by (simp add: algebra_simps)
  qed
  show ?thesis
  proof (cases "q = L")
    case True
    with n assms(2) have "d < 2 * r" by (simp add: algebra_simps)
    then show ?thesis using True by (simp add: roundHalfEven_def Let_def q_def r_def)
  next
    case False
    with \<open>L \<le> q\<close> have "L + 1 \<le> q" by simp
    with roundHalfEven_between(1) [OF assms(1), of n] show ?thesis by (simp add: q_def)
  qed
qed

text \<open>
  The exponent is at most the difference of the bit lengths, and a safe integer has at
  most 53 bits.
\<close>

lemma binaryExponent_le: "binaryExponent n d \<le> bitlen n - bitlen d"
  by (simp add: binaryExponent_def Let_def)

lemma bitlen_safe: "x \<le> maxSafeInteger \<Longrightarrow> bitlen x \<le> 53"
  by (simp add: bitlen_le_iff_power maxSafeInteger_def)

lemma bitlen_1000: "bitlen 1000 = 10"
  by code_simp

lemma bitlen_1: "bitlen 1 = 1"
  by code_simp

text \<open>
  On safe integers the operations are exact: a difference within the safe integers is
  not rounded, and the floor of the rounded quotient by 1000 is the floor of the exact
  quotient, since the quotient is rounded at a precision of \<open>2^-9\<close> or finer and an
  inexact quotient is at least \<open>1 / 1000\<close> away from every integer.
\<close>

lemma doubleMinus_exact:
  assumes "\<bar>a - b\<bar> \<le> maxSafeInteger"
  shows "doubleMinus a b = a - b"
proof (cases "a - b = 0")
  case True
  then show ?thesis by (simp add: doubleMinus_def nearestDouble_def doubleFloor_def)
next
  case False
  define x where "x = a - b"
  define k where "k = 52 - binaryExponent \<bar>x\<bar> 1"
  from assms have "bitlen \<bar>x\<bar> \<le> 53" unfolding x_def by (rule bitlen_safe)
  with binaryExponent_le [of "\<bar>x\<bar>" 1] have k: "0 \<le> k"
    by (simp add: k_def bitlen_1)
  have "roundHalfEven (\<bar>x\<bar> * 2 ^ nat k) 1 = \<bar>x\<bar> * 2 ^ nat k"
    using roundHalfEven_exact [of 1 "\<bar>x\<bar> * 2 ^ nat k"] by simp
  with False k have "nearestDouble x 1 = (sgn x * (\<bar>x\<bar> * 2 ^ nat k), k)"
    by (simp add: nearestDouble_def Let_def k_def x_def)
  moreover have "sgn x * (\<bar>x\<bar> * 2 ^ nat k) = x * 2 ^ nat k"
    by (simp add: mult.assoc [symmetric] mult_sgn_abs)
  ultimately have "doubleFloor (nearestDouble x 1) = x"
    using k by (simp add: doubleFloor_def)
  then show ?thesis by (simp add: doubleMinus_def x_def)
qed

lemma div_between:
  fixes m P q :: int
  assumes "0 < P" and "q * P \<le> m" and "m < (q + 1) * P"
  shows "m div P = q"
proof (rule int_div_pos_eq [where r = "m - P * q"])
  show "m = P * q + (m - P * q)" by simp
  from assms(2) show "0 \<le> m - P * q" by (simp add: mult.commute)
  from assms(3) show "m - P * q < P" by (simp add: algebra_simps)
qed

lemma doubleFloor_div_1000:
  assumes "\<bar>x\<bar> \<le> maxSafeInteger"
  shows "doubleFloor (nearestDouble x 1000) = x div 1000"
proof (cases "x = 0")
  case True
  then show ?thesis by (simp add: nearestDouble_def doubleFloor_def)
next
  case False
  define a where "a = \<bar>x\<bar>"
  define k where "k = 52 - binaryExponent a 1000"
  define P :: int where "P = 2 ^ nat k"
  define m where "m = roundHalfEven (a * P) 1000"
  define q where "q = x div 1000"
  from assms have "bitlen a \<le> 53" unfolding a_def by (rule bitlen_safe)
  with binaryExponent_le [of a 1000] have k: "9 \<le> k"
    by (simp add: k_def bitlen_1000)
  then have "(2::int) ^ 9 \<le> 2 ^ nat k" by (intro power_increasing) simp_all
  then have P: "512 \<le> P" by (simp add: P_def)
  from False k have "nearestDouble x 1000 = (sgn x * m, k)"
    by (simp add: nearestDouble_def Let_def k_def m_def a_def P_def)
  with k have fl: "doubleFloor (nearestDouble x 1000) = (sgn x * m) div P"
    by (simp add: doubleFloor_def P_def)
  have x: "x = q * 1000 + x mod 1000" by (simp add: q_def)
  have r: "0 \<le> x mod 1000" "x mod 1000 < 1000" by simp_all
  have "(sgn x * m) div P = q"
  proof (cases "0 < x")
    case True
    then have ax: "a = x" by (simp add: a_def)
    have "q * 1000 \<le> a" using x r ax by linarith
    with P have "q * 1000 * P \<le> a * P" by (intro mult_right_mono) simp_all
    then have "q * P * 1000 \<le> a * P" by (simp add: mult_ac)
    then have lower: "q * P \<le> m" unfolding m_def by (intro roundHalfEven_ge) simp_all
    have "a \<le> q * 1000 + 999" using x r ax by linarith
    with P have "a * P \<le> (q * 1000 + 999) * P" by (intro mult_right_mono) simp_all
    then have "2 * (a * P) \<le> 2000 * (q * P) + 1998 * P" by (simp add: algebra_simps)
    also have "\<dots> < 2000 * (q * P) + 2000 * P - 1000" using P by simp
    finally have "2 * (a * P) < (2 * ((q + 1) * P) - 1) * 1000" by (simp add: algebra_simps)
    then have "m \<le> (q + 1) * P - 1" unfolding m_def by (intro roundHalfEven_below_half) simp_all
    with lower P have "m div P = q" by (intro div_between) simp_all
    with True show ?thesis by simp
  next
    case neg: False
    with False have xneg: "x < 0" by simp
    then have ax: "a = - x" by (simp add: a_def)
    have "a \<le> - q * 1000" using x r ax by linarith
    with P have "a * P \<le> (- q * 1000) * P" by (intro mult_right_mono) simp_all
    then have "a * P \<le> (- q * P) * 1000" by (simp add: mult_ac)
    then have upper: "m \<le> - q * P" unfolding m_def by (intro roundHalfEven_le) simp_all
    have "- q * 1000 - 999 \<le> a" using x r ax by linarith
    with P have "(- q * 1000 - 999) * P \<le> a * P" by (intro mult_right_mono) simp_all
    then have "- 2000 * (q * P) - 1998 * P \<le> 2 * (a * P)" by (simp add: algebra_simps)
    moreover have "- 2000 * (q * P) - 2000 * P + 1000 < - 2000 * (q * P) - 1998 * P"
      using P by simp
    ultimately have "- 2000 * (q * P) - 2000 * P + 1000 < 2 * (a * P)" by linarith
    then have "(2 * (- (q + 1) * P) + 1) * 1000 < 2 * (a * P)" by (simp add: algebra_simps)
    then have "- (q + 1) * P + 1 \<le> m" unfolding m_def by (intro roundHalfEven_above_half) simp_all
    with upper P have "(- m) div P = q" by (intro div_between) (simp_all add: algebra_simps)
    with xneg show ?thesis by simp
  qed
  with fl show ?thesis by (simp add: q_def)
qed

text \<open>
  So the reconciliation in double precision is the one in exact arithmetic whenever the
  difference of the timestamps and the adjusted time are safe integers.
\<close>

lemma calculateRestoredStateDouble_exact:
  assumes "\<bar>now - savedAt s\<bar> \<le> maxSafeInteger"
    and "\<bar>totalSeconds s - (now - savedAt s) div 1000\<bar> \<le> maxSafeInteger"
  shows "calculateRestoredStateDouble now s = calculateRestoredState now s"
proof -
  from assms(1) have sub: "doubleMinus now (savedAt s) = now - savedAt s"
    by (rule doubleMinus_exact)
  from assms(1) have quot: "doubleFloor (nearestDouble (now - savedAt s) 1000)
      = (now - savedAt s) div 1000"
    by (rule doubleFloor_div_1000)
  from assms(2) have sub2: "doubleMinus (totalSeconds s) ((now - savedAt s) div 1000)
      = totalSeconds s - (now - savedAt s) div 1000"
    by (rule doubleMinus_exact)
  show ?thesis
    by (simp add: calculateRestoredStateDouble_def calculateRestoredState_def sub quot sub2)
qed

text \<open>
  C10, as stated: every running snapshot with status \<open>Running\<close> and \<open>savedAt\<close> later
  than \<open>now\<close> would be restored with a strictly greater \<open>totalSeconds\<close>. For a snapshot
  with \<open>totalSeconds = 2^53\<close>, saved at time 1001 and read at time 1000, the elapsed time
  is \<open>-1\<close> and the sum \<open>2^53 + 1\<close> is not a double: it rounds to \<open>2^53\<close>, and the restored
  \<open>totalSeconds\<close> is the saved one.
\<close>

theorem clock_skew_double_counterexample:
  "isRunning (runningSnapshot 9007199254740992 1001)
   \<and> status (runningSnapshot 9007199254740992 1001) = Running
   \<and> 1000 < savedAt (runningSnapshot 9007199254740992 1001)
   \<and> totalSeconds (runningSnapshot 9007199254740992 1001) = 9007199254740992
   \<and> totalSeconds (calculateRestoredStateDouble 1000 (runningSnapshot 9007199254740992 1001))
       = 9007199254740992"
  by code_simp

text \<open>
  C10, amended. For a snapshot with \<open>isRunning\<close>, status \<open>Running\<close>, \<open>totalSeconds\<close> not
  negative and \<open>savedAt\<close> strictly later than \<open>now\<close>, where the two timestamps and the sum
  \<open>totalSeconds - elapsed\<close> are safe integers (between 0 and \<open>2^53 - 1\<close>): the elapsed time
  computed is at most \<open>-1\<close> and is not clamped, the restored \<open>totalSeconds\<close> is
  \<open>totalSeconds - elapsed\<close>, strictly greater than the saved one, the result is still
  running with status \<open>Running\<close>, and its \<open>savedAt\<close> is \<open>now\<close>.
\<close>

theorem calculateRestoredStateDouble_clock_skew:
  assumes run: "isRunning s" "status s = Running"
    and skew: "now < savedAt s"
    and nonneg: "0 \<le> totalSeconds s"
    and safe: "0 \<le> now" "savedAt s \<le> maxSafeInteger"
      "totalSeconds s - (now - savedAt s) div 1000 \<le> maxSafeInteger"
  shows "totalSeconds s < totalSeconds (calculateRestoredStateDouble now s)
     \<and> totalSeconds (calculateRestoredStateDouble now s)
         = totalSeconds s - (now - savedAt s) div 1000
     \<and> (now - savedAt s) div 1000 \<le> - 1
     \<and> isRunning (calculateRestoredStateDouble now s)
     \<and> status (calculateRestoredStateDouble now s) = Running
     \<and> savedAt (calculateRestoredStateDouble now s) = now"
proof -
  note exact = calculateRestoredState_clock_skew_int [OF run skew nonneg]
  from skew safe(1,2) have diff: "\<bar>now - savedAt s\<bar> \<le> maxSafeInteger" by simp
  from exact nonneg have "0 \<le> totalSeconds s - (now - savedAt s) div 1000" by linarith
  with safe(3) have "\<bar>totalSeconds s - (now - savedAt s) div 1000\<bar> \<le> maxSafeInteger" by simp
  with diff have "calculateRestoredStateDouble now s = calculateRestoredState now s"
    by (rule calculateRestoredStateDouble_exact)
  with exact show ?thesis by simp
qed

theorem calculateRestoredStateDouble_clock_skew_witness:
  "totalSeconds (runningSnapshot 30 1001) = 30
   \<and> totalSeconds (calculateRestoredStateDouble 1000 (runningSnapshot 30 1001)) = 31
   \<and> isRunning (calculateRestoredStateDouble 1000 (runningSnapshot 30 1001))
   \<and> status (calculateRestoredStateDouble 1000 (runningSnapshot 30 1001)) = Running
   \<and> savedAt (calculateRestoredStateDouble 1000 (runningSnapshot 30 1001)) = 1000"
proof -
  have hyps: "isRunning (runningSnapshot 30 1001)" "status (runningSnapshot 30 1001) = Running"
    "1000 < savedAt (runningSnapshot 30 1001)" "0 \<le> totalSeconds (runningSnapshot 30 1001)"
    "(0::int) \<le> 1000" "savedAt (runningSnapshot 30 1001) \<le> maxSafeInteger"
    "totalSeconds (runningSnapshot 30 1001) - (1000 - savedAt (runningSnapshot 30 1001)) div 1000
       \<le> maxSafeInteger"
    by (simp_all add: runningSnapshot_def maxSafeInteger_def)
  from calculateRestoredStateDouble_clock_skew [OF hyps] show ?thesis
    by (simp add: runningSnapshot_def)
qed

section \<open>Countdown engine: properties\<close>

lemma at_index_in_range:
  "0 \<le> i \<Longrightarrow> i < int (length xs) \<Longrightarrow> at_index xs i = Some (xs ! nat i)"
  by (simp add: at_index_def)

lemma at_index_first: "xs \<noteq> [] \<Longrightarrow> at_index xs 0 = Some (xs ! 0)"
  by (simp add: at_index_def)

text \<open>
  C1. The tick on a running state (\<open>isRunning\<close>, status \<open>Running\<close>) with an active
  preset. The preset has at least one phase and the phase index is not negative, as the
  data model has it for an activated preset and for a timer state. If \<open>totalSeconds > 1\<close>
  the tick subtracts exactly one second, the result is not negative, and \<open>isRunning\<close>,
  \<open>status\<close> and \<open>currentPhaseIndex\<close> are untouched. If \<open>totalSeconds \<le> 1\<close>: when a next
  phase exists the index advances by one and \<open>totalSeconds\<close> is that phase's
  \<open>durationMinutes * 60\<close>, still running; otherwise, when \<open>loopPhases\<close> holds, the timer
  wraps to phase 0 with its full duration, still running; otherwise \<open>totalSeconds = 0\<close>,
  \<open>isRunning = False\<close> and the status is \<open>Completed\<close>.
\<close>

theorem tick_running_step:
  assumes running: "isRunning prev" "status prev = Running"
    and wf: "phases p \<noteq> []" "0 \<le> currentPhaseIndex prev"
  shows "(1 < totalSeconds prev \<longrightarrow>
            tick (Some p) prev = Inr (prev\<lparr>totalSeconds := totalSeconds prev - 1\<rparr>)
            \<and> 0 \<le> totalSeconds prev - 1)
       \<and> (totalSeconds prev \<le> 1 \<and> currentPhaseIndex prev + 1 < int (length (phases p)) \<longrightarrow>
            tick (Some p) prev =
              Inr \<lparr>totalSeconds = durationMinutes (phases p ! nat (currentPhaseIndex prev + 1)) * 60,
                   isRunning = True, status = Running,
                   currentPhaseIndex = currentPhaseIndex prev + 1\<rparr>)
       \<and> (totalSeconds prev \<le> 1 \<and> int (length (phases p)) \<le> currentPhaseIndex prev + 1
            \<and> loopPhases p \<longrightarrow>
            tick (Some p) prev =
              Inr \<lparr>totalSeconds = durationMinutes (phases p ! 0) * 60,
                   isRunning = True, status = Running, currentPhaseIndex = 0\<rparr>)
       \<and> (totalSeconds prev \<le> 1 \<and> int (length (phases p)) \<le> currentPhaseIndex prev + 1
            \<and> \<not> loopPhases p \<longrightarrow>
            tick (Some p) prev =
              Inr \<lparr>totalSeconds = 0, isRunning = False, status = Completed,
                   currentPhaseIndex = currentPhaseIndex prev\<rparr>)"
proof (intro conjI impI)
  assume "1 < totalSeconds prev"
  then show "tick (Some p) prev = Inr (prev\<lparr>totalSeconds := totalSeconds prev - 1\<rparr>)"
    by (simp add: tick_def)
next
  assume "1 < totalSeconds prev"
  then show "0 \<le> totalSeconds prev - 1" by simp
next
  assume a: "totalSeconds prev \<le> 1 \<and> currentPhaseIndex prev + 1 < int (length (phases p))"
  with wf have "at_index (phases p) (currentPhaseIndex prev + 1)
      = Some (phases p ! nat (currentPhaseIndex prev + 1))"
    by (intro at_index_in_range) simp_all
  with a show "tick (Some p) prev =
      Inr \<lparr>totalSeconds = durationMinutes (phases p ! nat (currentPhaseIndex prev + 1)) * 60,
           isRunning = True, status = Running, currentPhaseIndex = currentPhaseIndex prev + 1\<rparr>"
    by (simp add: tick_def Let_def)
next
  assume a: "totalSeconds prev \<le> 1 \<and> int (length (phases p)) \<le> currentPhaseIndex prev + 1
      \<and> loopPhases p"
  from wf have "at_index (phases p) 0 = Some (phases p ! 0)" by (simp add: at_index_first)
  with a show "tick (Some p) prev =
      Inr \<lparr>totalSeconds = durationMinutes (phases p ! 0) * 60,
           isRunning = True, status = Running, currentPhaseIndex = 0\<rparr>"
    by (simp add: tick_def Let_def)
next
  assume a: "totalSeconds prev \<le> 1 \<and> int (length (phases p)) \<le> currentPhaseIndex prev + 1
      \<and> \<not> loopPhases p"
  have "prev\<lparr>totalSeconds := 0, isRunning := False, status := Completed\<rparr>
      = \<lparr>totalSeconds = 0, isRunning = False, status = Completed,
         currentPhaseIndex = currentPhaseIndex prev\<rparr>"
    by simp
  with a show "tick (Some p) prev =
      Inr \<lparr>totalSeconds = 0, isRunning = False, status = Completed,
           currentPhaseIndex = currentPhaseIndex prev\<rparr>"
    by (simp add: tick_def Let_def)
qed

theorem tick_running_step_witness:
  "tick (Some (workBreak False))
       \<lparr>totalSeconds = 60, isRunning = True, status = Running, currentPhaseIndex = 0\<rparr>
     = Inr \<lparr>totalSeconds = 59, isRunning = True, status = Running, currentPhaseIndex = 0\<rparr>
   \<and> tick (Some (workBreak False))
       \<lparr>totalSeconds = 1, isRunning = True, status = Running, currentPhaseIndex = 0\<rparr>
     = Inr \<lparr>totalSeconds = 60, isRunning = True, status = Running, currentPhaseIndex = 1\<rparr>
   \<and> tick (Some (workBreak True))
       \<lparr>totalSeconds = 1, isRunning = True, status = Running, currentPhaseIndex = 1\<rparr>
     = Inr \<lparr>totalSeconds = 60, isRunning = True, status = Running, currentPhaseIndex = 0\<rparr>
   \<and> tick (Some (workBreak False))
       \<lparr>totalSeconds = 1, isRunning = True, status = Running, currentPhaseIndex = 1\<rparr>
     = Inr \<lparr>totalSeconds = 0, isRunning = False, status = Completed, currentPhaseIndex = 1\<rparr>"
proof -
  have ne: "phases (workBreak b) \<noteq> []" for b by (simp add: workBreak_def)
  have len: "length (phases (workBreak b)) = 2" for b by (simp add: workBreak_def)
  have dur: "durationMinutes (phases (workBreak b) ! 0) = 1"
            "durationMinutes (phases (workBreak b) ! Suc 0) = 1" for b
    by (simp_all add: workBreak_def workPhase_def breakPhase_def)
  have loop: "loopPhases (workBreak b) = b" for b by (simp add: workBreak_def)
  note step = tick_running_step [OF _ _ ne]
  from step [of "\<lparr>totalSeconds = 60, isRunning = True, status = Running, currentPhaseIndex = 0\<rparr>" False]
  have one: "tick (Some (workBreak False))
       \<lparr>totalSeconds = 60, isRunning = True, status = Running, currentPhaseIndex = 0\<rparr>
     = Inr \<lparr>totalSeconds = 59, isRunning = True, status = Running, currentPhaseIndex = 0\<rparr>"
    by simp
  from step [of "\<lparr>totalSeconds = 1, isRunning = True, status = Running, currentPhaseIndex = 0\<rparr>" False]
  have two: "tick (Some (workBreak False))
       \<lparr>totalSeconds = 1, isRunning = True, status = Running, currentPhaseIndex = 0\<rparr>
     = Inr \<lparr>totalSeconds = 60, isRunning = True, status = Running, currentPhaseIndex = 1\<rparr>"
    by (simp add: len dur)
  from step [of "\<lparr>totalSeconds = 1, isRunning = True, status = Running, currentPhaseIndex = 1\<rparr>" True]
  have three: "tick (Some (workBreak True))
       \<lparr>totalSeconds = 1, isRunning = True, status = Running, currentPhaseIndex = 1\<rparr>
     = Inr \<lparr>totalSeconds = 60, isRunning = True, status = Running, currentPhaseIndex = 0\<rparr>"
    by (simp add: len dur loop)
  from step [of "\<lparr>totalSeconds = 1, isRunning = True, status = Running, currentPhaseIndex = 1\<rparr>" False]
  have four: "tick (Some (workBreak False))
       \<lparr>totalSeconds = 1, isRunning = True, status = Running, currentPhaseIndex = 1\<rparr>
     = Inr \<lparr>totalSeconds = 0, isRunning = False, status = Completed, currentPhaseIndex = 1\<rparr>"
    by (simp add: len loop)
  from one two three four show ?thesis by blast
qed

text \<open>
  Outside that data model the array read gives \<^verbatim>\<open>undefined\<close> and the updater throws:
  a looping preset without phases, or a phase index below \<open>-1\<close>.
\<close>

lemma tick_outside_data_model:
  "tick (Some emptyPreset)
      \<lparr>totalSeconds = 1, isRunning = True, status = Running, currentPhaseIndex = 0\<rparr>
     = Inl TypeError
   \<and> tick (Some (workBreak False))
      \<lparr>totalSeconds = 1, isRunning = True, status = Running, currentPhaseIndex = - 3\<rparr>
     = Inl TypeError"
  by (simp add: tick_def at_index_def emptyPreset_def workBreak_def)

text \<open>
  The two-phase preset of one minute each, started and ticked: 59 ticks leave one second
  of phase 0, the 60th enters phase 1 with 60 seconds, the 120th completes the timer, or
  wraps to phase 0 and keeps running when the preset loops.
\<close>

lemma phase_advance_example:
  "start (Some (workBreak False)) initialTimerState
     = \<lparr>totalSeconds = 60, isRunning = True, status = Running, currentPhaseIndex = 0\<rparr>
   \<and> ticks 59 (Some (workBreak False)) (start (Some (workBreak False)) initialTimerState)
     = Inr \<lparr>totalSeconds = 1, isRunning = True, status = Running, currentPhaseIndex = 0\<rparr>
   \<and> ticks 60 (Some (workBreak False)) (start (Some (workBreak False)) initialTimerState)
     = Inr \<lparr>totalSeconds = 60, isRunning = True, status = Running, currentPhaseIndex = 1\<rparr>
   \<and> ticks 120 (Some (workBreak False)) (start (Some (workBreak False)) initialTimerState)
     = Inr \<lparr>totalSeconds = 0, isRunning = False, status = Completed, currentPhaseIndex = 1\<rparr>
   \<and> ticks 120 (Some (workBreak True)) (start (Some (workBreak True)) initialTimerState)
     = Inr \<lparr>totalSeconds = 60, isRunning = True, status = Running, currentPhaseIndex = 0\<rparr>"
  by code_simp

text \<open>
  C6, as stated: \<open>pause\<close> would leave every state that is not running unchanged. The
  initial state is not running and idle, and \<open>pause\<close> changes its status to \<open>Paused\<close>.
\<close>

theorem pause_not_running_counterexample:
  "isRunning initialTimerState = False \<and> status initialTimerState = Idle
   \<and> pause initialTimerState \<noteq> initialTimerState"
  by (simp add: pause_def initialTimerState_def)

text \<open>
  C6, amended. \<open>pause\<close> sets \<open>isRunning = False\<close> and status \<open>Paused\<close> in every state,
  whether or not the timer was running, and never alters \<open>totalSeconds\<close> or
  \<open>currentPhaseIndex\<close>. It leaves the state unchanged exactly when the state already has
  \<open>isRunning = False\<close> and status \<open>Paused\<close>; an idle or completed state becomes paused.
\<close>

theorem pause_effect:
  "pause s = s\<lparr>isRunning := False, status := Paused\<rparr>
   \<and> isRunning (pause s) = False \<and> status (pause s) = Paused
   \<and> totalSeconds (pause s) = totalSeconds s
   \<and> currentPhaseIndex (pause s) = currentPhaseIndex s
   \<and> ((pause s = s) = (isRunning s = False \<and> status s = Paused))"
proof -
  have "(s\<lparr>isRunning := False, status := Paused\<rparr> = s) = (isRunning s = False \<and> status s = Paused)"
    by (cases s) auto
  then show ?thesis by (simp add: pause_def)
qed

text \<open>
  C7. Invalid control calls leave the timer state unchanged, without an error, in every
  state: \<open>start\<close>, \<open>reset\<close>, \<open>skipToNextPhase\<close> and \<open>skipToPreviousPhase\<close> when no preset
  is active or the active preset has no phases, and \<open>goToPhase index\<close> when no preset is
  active, \<open>index < 0\<close> or \<open>index \<ge> phases.length\<close>.
\<close>

theorem invalid_controls_noop:
  "start None s = s \<and> reset None s = s
   \<and> skipToNextPhase None s = Inr s \<and> skipToPreviousPhase None s = Inr s
   \<and> goToPhase None i s = s
   \<and> (phases p = [] \<longrightarrow>
        start (Some p) s = s \<and> reset (Some p) s = s
        \<and> skipToNextPhase (Some p) s = Inr s \<and> skipToPreviousPhase (Some p) s = Inr s)
   \<and> (i < 0 \<or> int (length (phases p)) \<le> i \<longrightarrow> goToPhase (Some p) i s = s)"
proof (intro conjI impI)
  show "start None s = s" by (simp add: start_def)
  show "reset None s = s" by (simp add: reset_def)
  show "skipToNextPhase None s = Inr s" by (simp add: skipToNextPhase_def)
  show "skipToPreviousPhase None s = Inr s" by (simp add: skipToPreviousPhase_def)
  show "goToPhase None i s = s" by (simp add: goToPhase_def)
next
  assume empty: "phases p = []"
  then show "start (Some p) s = s" by (simp add: start_def)
  from empty show "reset (Some p) s = s" by (simp add: reset_def)
  from empty show "skipToNextPhase (Some p) s = Inr s" by (simp add: skipToNextPhase_def)
  from empty show "skipToPreviousPhase (Some p) s = Inr s"
    by (simp add: skipToPreviousPhase_def)
next
  assume "i < 0 \<or> int (length (phases p)) \<le> i"
  then show "goToPhase (Some p) i s = s" by (auto simp: goToPhase_def)
qed

theorem invalid_controls_noop_witness:
  "phases emptyPreset = []
   \<and> start (Some emptyPreset) (timerState (mountProvider 5000 (Some (pausedSnapshot 300 1000))))
       = timerState (mountProvider 5000 (Some (pausedSnapshot 300 1000)))
   \<and> skipToNextPhase (Some emptyPreset) initialTimerState = Inr initialTimerState
   \<and> goToPhase (Some (workBreak False)) 2 initialTimerState = initialTimerState
   \<and> goToPhase (Some (workBreak False)) (- 1) initialTimerState = initialTimerState"
proof -
  have empty: "phases emptyPreset = []" by (simp add: emptyPreset_def)
  have len: "int (length (phases (workBreak False))) = 2" by (simp add: workBreak_def)
  from invalid_controls_noop [of _ 0 emptyPreset]
  have a: "start (Some emptyPreset) s = s \<and> skipToNextPhase (Some emptyPreset) s = Inr s" for s
    using empty by simp
  from invalid_controls_noop [of initialTimerState 2 "workBreak False"] len
  have b: "goToPhase (Some (workBreak False)) 2 initialTimerState = initialTimerState" by simp
  from invalid_controls_noop [of initialTimerState "- 1" "workBreak False"]
  have c: "goToPhase (Some (workBreak False)) (- 1) initialTimerState = initialTimerState" by simp
  from empty a b c show ?thesis by simp
qed

section \<open>The invariant holds in every reachable configuration\<close>

text \<open>
  Reconciliation, the copy into a snapshot and the copy back keep the invariant; so does
  every control and the tick, and so does every effect of the provider.
\<close>

lemma timerInvariant_calculateRestoredState:
  "timerInvariant s \<Longrightarrow> timerInvariant (calculateRestoredState now s)"
  by (auto simp: timerInvariant_def calculateRestoredState_def Let_def)

lemma timerInvariant_createPersistedState:
  "timerInvariant (createPersistedState now (totalSeconds s) (currentPhaseIndex s) (status s) aid
      (isRunning s)) = timerInvariant s"
  by (simp add: timerInvariant_def createPersistedState_def)

lemma timerInvariant_truncate:
  "timerInvariant \<lparr>totalSeconds = totalSeconds r, isRunning = isRunning r, status = status r,
      currentPhaseIndex = currentPhaseIndex r\<rparr> = timerInvariant r"
  by (simp add: timerInvariant_def)

lemma timerInvariant_tick:
  assumes "timerInvariant s" and "tick ap s = Inr s'"
  shows "timerInvariant s'"
proof (cases "totalSeconds s \<le> 1")
  case True
  with assms(2) show ?thesis
    by (auto simp: tick_def timerInvariant_def Let_def split: option.splits if_splits)
next
  case False
  with assms(2) have s': "s' = s\<lparr>totalSeconds := totalSeconds s - 1\<rparr>"
    by (simp add: tick_def)
  from False assms(1) have "status s \<noteq> Completed"
    by (auto simp: timerInvariant_def)
  with assms(1) show ?thesis
    by (simp add: s' timerInvariant_def)
qed

lemma timerInvariant_start: "timerInvariant s \<Longrightarrow> timerInvariant (start ap s)"
  by (simp add: start_def timerInvariant_def split: option.splits)

lemma timerInvariant_pause: "timerInvariant (pause s)"
  by (simp add: pause_def timerInvariant_def)

lemma timerInvariant_reset: "timerInvariant s \<Longrightarrow> timerInvariant (reset ap s)"
  by (simp add: reset_def timerInvariant_def split: option.splits)

lemma timerInvariant_skipToNextPhase:
  "timerInvariant s \<Longrightarrow> skipToNextPhase ap s = Inr s' \<Longrightarrow> timerInvariant s'"
  by (auto simp: skipToNextPhase_def timerInvariant_def Let_def split: option.splits if_splits)

lemma timerInvariant_skipToPreviousPhase:
  "timerInvariant s \<Longrightarrow> skipToPreviousPhase ap s = Inr s' \<Longrightarrow> timerInvariant s'"
  by (auto simp: skipToPreviousPhase_def timerInvariant_def Let_def
      split: option.splits if_splits)

lemma timerInvariant_goToPhase: "timerInvariant s \<Longrightarrow> timerInvariant (goToPhase ap i s)"
  by (simp add: goToPhase_def timerInvariant_def split: option.splits)

lemma timerInvariant_perform:
  assumes "timerInvariant s" and "perform ap a s = Inr s'"
  shows "timerInvariant s'"
proof (cases a)
  case Start
  with assms show ?thesis using timerInvariant_start by auto
next
  case Pause
  with assms show ?thesis using timerInvariant_pause by auto
next
  case Reset
  with assms show ?thesis using timerInvariant_reset by auto
next
  case SkipToNextPhase
  with assms show ?thesis using timerInvariant_skipToNextPhase by auto
next
  case SkipToPreviousPhase
  with assms show ?thesis using timerInvariant_skipToPreviousPhase by auto
next
  case (GoToPhase i)
  with assms show ?thesis using timerInvariant_goToPhase by auto
next
  case Tick
  with assms show ?thesis using timerInvariant_tick by auto
qed

lemma timerInvariant_presetChangeEffect:
  "timerInvariant (timerState app) \<Longrightarrow> timerInvariant (timerState (presetChangeEffect ap aid app))"
  by (simp add: presetChangeEffect_def timerInvariant_def split: option.splits)

lemma presetChangeEffect_localStorage:
  "localStorage (presetChangeEffect ap aid app) = localStorage app"
  by (simp add: presetChangeEffect_def split: option.splits)

lemma configInvariant_persistEffect:
  "configInvariant w \<Longrightarrow> configInvariant (persistEffect now aid user sync w)"
  by (cases w)
     (auto simp: configInvariant_def persistEffect_def Let_def
        timerInvariant_createPersistedState)

lemma configInvariant_handleBeforeUnload:
  "configInvariant (app, remote) \<Longrightarrow> configInvariant (handleBeforeUnload now aid app, remote)"
  by (simp add: configInvariant_def handleBeforeUnload_def Let_def
      timerInvariant_createPersistedState)

lemma configInvariant_mountProvider:
  assumes "configInvariant (app, remote)"
  shows "configInvariant (mountProvider now (localStorage app), remote)"
proof (cases "localStorage app")
  case None
  with assms show ?thesis
    by (simp add: configInvariant_def mountProvider_def getInitialTimerState_def
        timerInvariant_def)
next
  case (Some l)
  with assms have "timerInvariant l" by (simp add: configInvariant_def)
  then have "timerInvariant (calculateRestoredState now l)"
    by (rule timerInvariant_calculateRestoredState)
  with assms Some show ?thesis
    by (simp add: configInvariant_def mountProvider_def getInitialTimerState_def Let_def
        timerInvariant_truncate)
qed

lemma configInvariant_loadFirebaseState:
  assumes "configInvariant (app, remote)"
  shows "configInvariant (loadFirebaseState user sync remote now app, remote)"
proof (cases remote)
  case None
  with assms show ?thesis by (simp add: loadFirebaseState_def)
next
  case (Some fb)
  with assms have "timerInvariant fb" by (simp add: configInvariant_def)
  then have "timerInvariant (calculateRestoredState now fb)"
    by (rule timerInvariant_calculateRestoredState)
  with assms Some show ?thesis
    by (simp add: configInvariant_def loadFirebaseState_def Let_def timerInvariant_truncate)
qed

lemma reachable_configInvariant: "reachable w \<Longrightarrow> configInvariant w"
proof (induction rule: reachable.induct)
  case fresh
  show ?case by (simp add: configInvariant_def timerInvariant_def initialTimerState_def)
next
  case (step app remote ap a s')
  then show ?case by (auto simp: configInvariant_def dest: timerInvariant_perform)
next
  case (presetChange app remote ap aid)
  then show ?case
    by (simp add: configInvariant_def timerInvariant_presetChangeEffect
        presetChangeEffect_localStorage)
next
  case (persist w now aid user sync)
  then show ?case by (simp add: configInvariant_persistEffect)
next
  case (unload app remote now aid)
  then show ?case by (simp add: configInvariant_handleBeforeUnload)
next
  case (reload app remote now)
  then show ?case by (simp add: configInvariant_mountProvider)
next
  case (loadFirebase app remote user sync now)
  then show ?case by (simp add: configInvariant_loadFirebaseState)
next
  case (otherDevice app remote app' remote')
  then show ?case by (simp add: configInvariant_def)
qed

text \<open>
  C4. In every configuration reachable from the initial state by control calls
  (\<open>start\<close>, \<open>pause\<close>, \<open>reset\<close>, \<open>skipToNextPhase\<close>, \<open>skipToPreviousPhase\<close>,
  \<open>goToPhase\<close>), ticks, preset changes, saves and restores (from \<^verbatim>\<open>localStorage\<close> on
  reload, from Firebase by \<open>loadFirebaseState\<close>), the timer state satisfies: running
  implies status \<open>Running\<close>, and status \<open>Completed\<close> implies \<open>totalSeconds = 0\<close> and not
  running.
\<close>

theorem reachable_timer_invariant:
  assumes "reachable (app, remote)"
  shows "(isRunning (timerState app) \<longrightarrow> status (timerState app) = Running)
       \<and> (status (timerState app) = Completed \<longrightarrow>
            totalSeconds (timerState app) = 0 \<and> \<not> isRunning (timerState app))"
proof -
  from assms have "configInvariant (app, remote)" by (rule reachable_configInvariant)
  then have "timerInvariant (timerState app)" by (simp add: configInvariant_def)
  then show ?thesis by (simp add: timerInvariant_def)
qed

theorem reachable_timer_invariant_witness:
  "reachable (\<lparr>timerState =
                  \<lparr>totalSeconds = 60, isRunning = True, status = Running,
                   currentPhaseIndex = 0\<rparr>,
                hasRestoredState = False, restoredPresetIdRef = None,
                localStorage = None\<rparr>, None)
   \<and> status (timerState
        \<lparr>timerState =
           \<lparr>totalSeconds = 60, isRunning = True, status = Running, currentPhaseIndex = 0\<rparr>,
         hasRestoredState = False, restoredPresetIdRef = None,
         localStorage = None\<rparr>) = Running"
proof -
  let ?app0 = "\<lparr>timerState = initialTimerState, hasRestoredState = False,
                 restoredPresetIdRef = None, localStorage = None\<rparr>"
  let ?started = "\<lparr>totalSeconds = 60, isRunning = True, status = Running,
                    currentPhaseIndex = 0\<rparr>"
  have "perform (Some (workBreak False)) Start (timerState ?app0) = Inr ?started"
    by (simp add: start_def initialTimerState_def workBreak_def workPhase_def)
  with reachable.fresh have "reachable (?app0\<lparr>timerState := ?started\<rparr>, None)"
    by (rule reachable.step)
  then have reach: "reachable (\<lparr>timerState = ?started, hasRestoredState = False,
      restoredPresetIdRef = None, localStorage = None\<rparr>, None)"
    by simp
  from reachable_timer_invariant [OF reach] have "status (timerState
      \<lparr>timerState = ?started, hasRestoredState = False, restoredPresetIdRef = None,
       localStorage = None\<rparr>) = Running"
    by simp
  with reach show ?thesis by simp
qed

section \<open>Boot: the remote snapshot against the local one\<close>

text \<open>
  \<open>loadFirebaseState\<close> as a function of the user and of the ref: it does nothing without
  a user or with the ref false. With a user and the ref true, the remote snapshot is
  adopted exactly when it exists and either nothing is stored locally or its \<open>savedAt\<close>
  is strictly greater than the local one: the timer state becomes the reconciled remote
  snapshot, which is also written to \<^verbatim>\<open>localStorage\<close>. Otherwise, and in particular when
  the two \<open>savedAt\<close> are equal, the provider state is kept as it is.
\<close>

lemma loadFirebaseState_cases:
  "loadFirebaseState None sync firebaseState now app = app
   \<and> loadFirebaseState user False firebaseState now app = app
   \<and> loadFirebaseState (Some uid) True None now app = app
   \<and> (localStorage app = None \<or> (\<exists>l. localStorage app = Some l \<and> savedAt l < savedAt fb) \<longrightarrow>
        loadFirebaseState (Some uid) True (Some fb) now app =
          app\<lparr>timerState :=
                \<lparr>totalSeconds = totalSeconds (calculateRestoredState now fb),
                 isRunning = isRunning (calculateRestoredState now fb),
                 status = status (calculateRestoredState now fb),
                 currentPhaseIndex = currentPhaseIndex (calculateRestoredState now fb)\<rparr>,
              hasRestoredState := True,
              restoredPresetIdRef := activePresetId (calculateRestoredState now fb),
              localStorage := Some (calculateRestoredState now fb)\<rparr>)
   \<and> (localStorage app = Some l \<and> savedAt fb \<le> savedAt l \<longrightarrow>
        loadFirebaseState (Some uid) True (Some fb) now app = app)"
  by (auto simp: loadFirebaseState_def Let_def)

lemma loadFirebaseState_cases_example:
  "timerState (loadFirebaseState (Some ''u1'') True (Some (runningSnapshot 45 2000)) 5000
       (mountProvider 5000 (Some (pausedSnapshot 300 1000))))
     = \<lparr>totalSeconds = 42, isRunning = True, status = Running, currentPhaseIndex = 1\<rparr>
   \<and> localStorage (loadFirebaseState (Some ''u1'') True (Some (runningSnapshot 45 2000)) 5000
       (mountProvider 5000 (Some (pausedSnapshot 300 1000))))
     = Some (runningSnapshot 42 5000)
   \<and> loadFirebaseState (Some ''u1'') True (Some (runningSnapshot 45 1000)) 5000
       (mountProvider 5000 (Some (pausedSnapshot 300 1000)))
     = mountProvider 5000 (Some (pausedSnapshot 300 1000))"
proof -
  let ?app = "mountProvider 5000 (Some (pausedSnapshot 300 1000))"
  have local: "localStorage ?app = Some (pausedSnapshot 300 1000)"
    by (simp add: mountProvider_def getInitialTimerState_def Let_def)
  have newer: "savedAt (pausedSnapshot 300 1000) < savedAt (runningSnapshot 45 2000)"
    by (simp add: pausedSnapshot_def runningSnapshot_def)
  have equal: "savedAt (runningSnapshot 45 1000) \<le> savedAt (pausedSnapshot 300 1000)"
    by (simp add: pausedSnapshot_def runningSnapshot_def)
  have restored: "calculateRestoredState 5000 (runningSnapshot 45 2000) = runningSnapshot 42 5000"
    by (simp add: calculateRestoredState_def runningSnapshot_def)
  note facts = loadFirebaseState_cases [where app = ?app and uid = "''u1''" and now = 5000]
  from facts [where fb = "runningSnapshot 45 2000"] local newer
  have adopt: "loadFirebaseState (Some ''u1'') True (Some (runningSnapshot 45 2000)) 5000 ?app =
      ?app\<lparr>timerState :=
             \<lparr>totalSeconds = 42, isRunning = True, status = Running, currentPhaseIndex = 1\<rparr>,
           hasRestoredState := True,
           restoredPresetIdRef := Some ''p1'',
           localStorage := Some (runningSnapshot 42 5000)\<rparr>"
    by (simp add: restored) (simp add: runningSnapshot_def)
  from facts [where fb = "runningSnapshot 45 1000" and l = "pausedSnapshot 300 1000"] local equal
  have keep: "loadFirebaseState (Some ''u1'') True (Some (runningSnapshot 45 1000)) 5000 ?app = ?app"
    by simp
  from adopt keep show ?thesis by simp
qed

text \<open>
  The ref at the time the loader runs. At the first commit the ref is false, whatever
  the user's settings are: they have not arrived yet. When they arrive the ref follows
  them, but the loader does not run again. A sign-out resets the ref, so a later sign-in
  finds it false too. In each case the provider state restored from \<^verbatim>\<open>localStorage\<close> is
  kept and the remote snapshot is not read.
\<close>

lemma loadFirebaseState_ref_false: "loadFirebaseState u False firebaseState now a = a"
  by (simp add: loadFirebaseState_def)




lemma signOut_resets_ref:
  assumes "currentUser p \<noteq> None" and "syncTimerStateRef p = syncTimerState p"
  shows "appState (authChange None firebaseState now p) = appState p"
    and "\<not> syncTimerStateRef (authChange None firebaseState now p)"
    and "\<not> syncTimerState (authChange None firebaseState now p)"
    and "currentUser (authChange None firebaseState now p) = None"
  using assms
  by (auto simp: authChange_def subscribeEffect_def loaderEffect_def syncRefEffect_def
      loadFirebaseState_def Let_def)

lemma signIn_keeps_local:
  assumes "currentUser p = None" and "\<not> syncTimerStateRef p"
  shows "appState (authChange (Some uid) firebaseState now p) = appState p"
    and "syncTimerStateRef (authChange (Some uid) firebaseState now p) = False"
  using assms
  by (simp_all add: authChange_def subscribeEffect_def loaderEffect_def syncRefEffect_def
      loadFirebaseState_ref_false Let_def)


section \<open>The timestamp of local writes\<close>

text \<open>
  C9, as stated: every snapshot written to \<^verbatim>\<open>localStorage\<close> would carry the time of
  the write, also the write-through of an adopted remote snapshot that was not running.
  A paused remote snapshot saved at time 1000 and adopted at time 5000 is written with
  \<open>savedAt = 1000\<close>.
\<close>

theorem write_through_savedAt_counterexample:
  "map_option savedAt
     (localStorage (loadFirebaseState (Some ''u1'') True (Some (pausedSnapshot 300 1000)) 5000
        (mountProvider 5000 None))) = Some 1000
   \<and> map_option savedAt
     (localStorage (loadFirebaseState (Some ''u1'') True (Some (pausedSnapshot 300 1000)) 5000
        (mountProvider 5000 None))) \<noteq> Some 5000"
  by (simp add: loadFirebaseState_def mountProvider_def getInitialTimerState_def
      calculateRestoredState_def pausedSnapshot_def Let_def)

lemma savedAt_calculateRestoredState:
  "savedAt (calculateRestoredState now s) =
     (if isRunning s \<and> status s = Running then now else savedAt s)"
  by (simp add: calculateRestoredState_def Let_def)

text \<open>
  C9, amended. A snapshot written to \<^verbatim>\<open>localStorage\<close> by the saving effect or by the
  unload handler carries \<open>savedAt\<close> equal to the time of the write (the saving effect
  writes nothing while the timer is idle at zero with no active preset). The
  write-through of an adopted remote snapshot carries the time of the write when the
  remote snapshot was running with status \<open>Running\<close>, and the remote snapshot's own
  \<open>savedAt\<close> otherwise; when the remote snapshot is not adopted nothing is written.
\<close>

theorem local_writes_savedAt:
  "(\<not> (status (timerState app) = Idle \<and> totalSeconds (timerState app) = 0
        \<and> (aid = None \<or> aid = Some [])) \<longrightarrow>
      map_option savedAt (localStorage (fst (persistEffect now aid user sync (app, remote))))
        = Some now)
   \<and> (status (timerState app) = Idle \<and> totalSeconds (timerState app) = 0
        \<and> (aid = None \<or> aid = Some []) \<longrightarrow>
      localStorage (fst (persistEffect now aid user sync (app, remote))) = localStorage app)
   \<and> map_option savedAt (localStorage (handleBeforeUnload now aid app)) = Some now
   \<and> ((case localStorage app of None \<Rightarrow> True | Some l \<Rightarrow> savedAt l < savedAt fb) \<longrightarrow>
      map_option savedAt
          (localStorage (loadFirebaseState (Some uid) True (Some fb) now app))
        = Some (if isRunning fb \<and> status fb = Running then now else savedAt fb))
   \<and> (\<not> (case localStorage app of None \<Rightarrow> True | Some l \<Rightarrow> savedAt l < savedAt fb) \<longrightarrow>
      localStorage (loadFirebaseState (Some uid) True (Some fb) now app) = localStorage app)"
proof (intro conjI impI)
  assume "\<not> (status (timerState app) = Idle \<and> totalSeconds (timerState app) = 0
        \<and> (aid = None \<or> aid = Some []))"
  then show "map_option savedAt
      (localStorage (fst (persistEffect now aid user sync (app, remote)))) = Some now"
    by (auto simp: persistEffect_def createPersistedState_def Let_def)
next
  assume "status (timerState app) = Idle \<and> totalSeconds (timerState app) = 0
        \<and> (aid = None \<or> aid = Some [])"
  then show "localStorage (fst (persistEffect now aid user sync (app, remote))) = localStorage app"
    by (auto simp: persistEffect_def)
next
  show "map_option savedAt (localStorage (handleBeforeUnload now aid app)) = Some now"
    by (simp add: handleBeforeUnload_def createPersistedState_def Let_def)
next
  assume "case localStorage app of None \<Rightarrow> True | Some l \<Rightarrow> savedAt l < savedAt fb"
  then have "localStorage (loadFirebaseState (Some uid) True (Some fb) now app)
      = Some (calculateRestoredState now fb)"
    by (simp add: loadFirebaseState_def Let_def)
  then show "map_option savedAt
      (localStorage (loadFirebaseState (Some uid) True (Some fb) now app))
      = Some (if isRunning fb \<and> status fb = Running then now else savedAt fb)"
    by (simp add: savedAt_calculateRestoredState)
next
  assume "\<not> (case localStorage app of None \<Rightarrow> True | Some l \<Rightarrow> savedAt l < savedAt fb)"
  then show "localStorage (loadFirebaseState (Some uid) True (Some fb) now app)
      = localStorage app"
    by (simp add: loadFirebaseState_def)
qed

theorem local_writes_savedAt_witness:
  "map_option savedAt (localStorage (fst (persistEffect 7000 (Some ''p1'') None False
       (adoptedApp, None)))) = Some 7000
   \<and> map_option savedAt (localStorage (handleBeforeUnload 8000 None adoptedApp)) = Some 8000
   \<and> map_option savedAt (localStorage adoptedApp) = Some 5000
   \<and> map_option savedAt
       (localStorage (loadFirebaseState (Some ''u1'') True (Some (pausedSnapshot 300 1000)) 5000
          (mountProvider 5000 None))) = Some 1000"
proof -
  have a: "\<not> (status (timerState adoptedApp) = Idle \<and> totalSeconds (timerState adoptedApp) = 0
        \<and> (Some ''p1'' = None \<or> Some ''p1'' = Some []))"
    by simp
  have none: "localStorage (mountProvider 5000 None) = None"
    by (simp add: mountProvider_def getInitialTimerState_def)
  have run: "isRunning (runningSnapshot 45 1000) \<and> status (runningSnapshot 45 1000) = Running"
    by (simp add: runningSnapshot_def)
  have notrun: "\<not> isRunning (pausedSnapshot 300 1000)" "savedAt (pausedSnapshot 300 1000) = 1000"
    by (simp_all add: pausedSnapshot_def)
  note w = local_writes_savedAt [where uid = "''u1''"]
  from w [where app = adoptedApp and aid = "Some ''p1''" and now = 7000 and user = None
      and sync = False and remote = None] a
  have one: "map_option savedAt (localStorage (fst (persistEffect 7000 (Some ''p1'') None False
       (adoptedApp, None)))) = Some 7000"
    by simp
  from w [where app = adoptedApp and aid = None and now = 8000]
  have two: "map_option savedAt (localStorage (handleBeforeUnload 8000 None adoptedApp)) = Some 8000"
    by simp
  from w [where app = "mountProvider 5000 None" and fb = "runningSnapshot 45 1000" and now = 5000]
    none run
  have three: "map_option savedAt (localStorage adoptedApp) = Some 5000"
    by (simp add: adoptedApp_def)
  from w [where app = "mountProvider 5000 None" and fb = "pausedSnapshot 300 1000" and now = 5000]
    none notrun
  have four: "map_option savedAt
       (localStorage (loadFirebaseState (Some ''u1'') True (Some (pausedSnapshot 300 1000)) 5000
          (mountProvider 5000 None))) = Some 1000"
    by simp
  from one two three four show ?thesis by simp
qed

section \<open>The preset-change effect and its guard\<close>

text \<open>
  One run of the effect: with the flag set for the active preset id it only clears the
  flag; otherwise it initialises the timer to phase 0 of the active preset, idle, or to
  zero when there is no preset or no phase.
\<close>

lemma presetChangeEffect_guard:
  "hasRestoredState app \<Longrightarrow> restoredPresetIdRef app = aid \<Longrightarrow>
   presetChangeEffect ap aid app = app\<lparr>hasRestoredState := False\<rparr>"
  by (simp add: presetChangeEffect_def)

lemma presetChangeEffect_reinit:
  "\<not> (hasRestoredState app \<and> restoredPresetIdRef app = aid) \<Longrightarrow>
   presetChangeEffect ap aid app =
     app\<lparr>timerState :=
           \<lparr>totalSeconds =
              (case ap of None \<Rightarrow> 0
               | Some p \<Rightarrow> if phases p = [] then 0 else durationMinutes (phases p ! 0) * 60),
            isRunning = False, status = Idle, currentPhaseIndex = 0\<rparr>\<rparr>"
  by (auto simp: presetChangeEffect_def split: option.splits)

text \<open>
  Followed through the commits: clearing the flag changes the dependency
  \<open>hasRestoredState\<close>, so the effect runs a second time with the flag cleared and
  initialises the timer.
\<close>

lemma presetChangeCommits_stable:
  "presetChangeCommits (Some (ap, aid, hasRestoredState app)) ap aid app = app"
  by (subst presetChangeCommits.simps) simp

lemma presetChangeCommits_guard_then_reinit:
  assumes guard: "hasRestoredState app" "restoredPresetIdRef app = aid"
    and changed: "prevDeps \<noteq> Some (ap, aid, True)"
  shows "presetChangeCommits prevDeps ap aid app =
     app\<lparr>hasRestoredState := False,
         timerState :=
           \<lparr>totalSeconds =
              (case ap of None \<Rightarrow> 0
               | Some p \<Rightarrow> if phases p = [] then 0 else durationMinutes (phases p ! 0) * 60),
            isRunning = False, status = Idle, currentPhaseIndex = 0\<rparr>\<rparr>"
proof -
  let ?cleared = "app\<lparr>hasRestoredState := False\<rparr>"
  from guard changed have first: "presetChangeCommits prevDeps ap aid app
      = presetChangeCommits (Some (ap, aid, True)) ap aid ?cleared"
    by (subst presetChangeCommits.simps) (simp add: presetChangeEffect_guard)
  have second: "presetChangeCommits (Some (ap, aid, True)) ap aid ?cleared
      = presetChangeCommits (Some (ap, aid, False)) ap aid (presetChangeEffect ap aid ?cleared)"
    by (subst presetChangeCommits.simps) simp
  have reinit: "presetChangeEffect ap aid ?cleared =
      ?cleared\<lparr>timerState :=
           \<lparr>totalSeconds =
              (case ap of None \<Rightarrow> 0
               | Some p \<Rightarrow> if phases p = [] then 0 else durationMinutes (phases p ! 0) * 60),
            isRunning = False, status = Idle, currentPhaseIndex = 0\<rparr>\<rparr>"
    by (rule presetChangeEffect_reinit) simp
  have third: "presetChangeCommits (Some (ap, aid, False)) ap aid
        (presetChangeEffect ap aid ?cleared) = presetChangeEffect ap aid ?cleared"
    by (subst presetChangeCommits.simps) (simp add: reinit)
  from first second third reinit show ?thesis by simp
qed

text \<open>
  C8. The specification, like the comments of the effect, has the initialisation
  skipped once after a restore was adopted for the active preset id, so that the
  restored state is preserved. On \<open>adoptedApp\<close>
  (41 seconds left, running, phase 1, adopted for preset \<open>p1\<close>) with \<open>p1\<close> the active
  preset, the run of the effect that sees the flag does preserve the timer state and
  clears the flag; but the commits that follow, with the preset unchanged, end with the
  timer initialised to phase 0 (60 seconds, idle, not running).
\<close>

theorem adopted_state_reinitialized:
  "timerState adoptedApp
     = \<lparr>totalSeconds = 41, isRunning = True, status = Running, currentPhaseIndex = 1\<rparr>
   \<and> hasRestoredState adoptedApp = True
   \<and> restoredPresetIdRef adoptedApp = Some ''p1''
   \<and> timerState (presetChangeEffect (Some (workBreak False)) (Some ''p1'') adoptedApp)
     = \<lparr>totalSeconds = 41, isRunning = True, status = Running, currentPhaseIndex = 1\<rparr>
   \<and> timerState (presetChangeCommits (Some (Some (workBreak False), Some ''p1'', False))
        (Some (workBreak False)) (Some ''p1'') adoptedApp)
     = \<lparr>totalSeconds = 60, isRunning = False, status = Idle, currentPhaseIndex = 0\<rparr>"
proof -
  have adopted: "adoptedApp =
      \<lparr>timerState =
         \<lparr>totalSeconds = 41, isRunning = True, status = Running, currentPhaseIndex = 1\<rparr>,
       hasRestoredState = True, restoredPresetIdRef = Some ''p1'',
       localStorage = Some (runningSnapshot 41 5000)\<rparr>"
    by (simp add: adoptedApp_def loadFirebaseState_def mountProvider_def
        getInitialTimerState_def calculateRestoredState_def runningSnapshot_def Let_def)
  have once: "presetChangeEffect (Some (workBreak False)) (Some ''p1'') adoptedApp
      = adoptedApp\<lparr>hasRestoredState := False\<rparr>"
    by (rule presetChangeEffect_guard) (simp_all add: adopted)
  have settled: "timerState (presetChangeCommits (Some (Some (workBreak False), Some ''p1'', False))
        (Some (workBreak False)) (Some ''p1'') adoptedApp)
     = \<lparr>totalSeconds = 60, isRunning = False, status = Idle, currentPhaseIndex = 0\<rparr>"
    by (subst presetChangeCommits_guard_then_reinit)
       (simp_all add: adopted workBreak_def workPhase_def)
  from once settled show ?thesis by (simp add: adopted)
qed

end
